theory Spec2Isabelle
  imports Main "HOL-Library.Word" "HOL-Library.Multiset" "HOL-Library.Sublist"
begin

section \<open>The Jingle converter's main window (mainwindow.cpp)\<close>

text \<open>
  The main window owns the vector \<open>compositions\<close> and drives two collaborators whose
  classes are declared elsewhere: \<open>Composition\<close> (constants, constructor, \<open>parse\<close>,
  \<open>getMemUsage\<close>, \<open>download\<close>) and \<open>SCSerial\<close> (\<open>open\<close>, \<open>send\<close>). Every slot of the
  window is a function from the window's state to its next state. What the
  collaborators compute is a parameter of the model; what the window does with their
  results is translated from the source.
\<close>

subsection \<open>Data\<close>

text \<open>
  \<open>SCSerial::ErrorCode\<close> and \<open>Composition::ErrorCode\<close>: the window only compares them
  with \<open>NO_ERROR\<close> and hands them to \<open>getErrorString\<close>, so one enumerator is named and
  the others are numbered.
\<close>

datatype ErrorCode = NO_ERROR | ERROR nat

text \<open>The pop-ups of \<open>QMessageBox::information\<close>, one constructor for each text.\<close>

datatype popup =
    Invalid_Composition_selected
  | No_Compositions_to_Play
  | Cannot_open string ErrorCode
  | Jingle_is_too_large "32 word" "32 word"
  | Failed_to_clear_Jingle_Data
  | Cannot_download_to string ErrorCode
  | Failed_to_send_play_command
  | Too_many_Compositions
  | Failed_to_parse_file string ErrorCode

text \<open>
  What the window asks of the serial line, in the order it asks, each with the result
  that came back: \<open>open\<close> on a port, \<open>send\<close> of a command with its expected response
  (a non-zero result is a failure), and \<open>download\<close> of a composition to a Jingle index.
\<close>

datatype 'c serial_call =
    Open string ErrorCode
  | Send string string int
  | Download 'c nat ErrorCode

text \<open>
  The undefined or exceptional ends of a slot: reading through a pointer that is
  not to an element of the vector, and \<open>std::out_of_range\<close> thrown by \<open>vector::at\<close>.
\<close>

datatype fault = UndefinedBehaviour | out_of_range

text \<open>
  The collaborators. The three constants combine with the \<open>uint32_t\<close> variable
  \<open>num_bytes\<close> and with \<open>compositions.size()\<close>; they are taken as unsigned values.
  \<open>'w\<close> is everything outside the window that the calls read or change (the file
  system, the port, the device).
\<close>

record ('c, 'w) collaborators =
  EEPROM_HDR_NUM_BYTES :: "32 word"
  MAX_EEPROM_BYTES :: "32 word"
  MAX_NUM_COMPS :: nat
  Composition :: "string \<Rightarrow> 'c"
  parse :: "'c \<Rightarrow> 'w \<Rightarrow> ErrorCode \<times> 'c"
  getMemUsage :: "'c \<Rightarrow> 32 word"
  download :: "'c \<Rightarrow> string \<Rightarrow> nat \<Rightarrow> 'w \<Rightarrow> ErrorCode \<times> 'w"
  SCSerial_open :: "string \<Rightarrow> 'w \<Rightarrow> ErrorCode \<times> 'w"
  SCSerial_send :: "string \<Rightarrow> string \<Rightarrow> string \<Rightarrow> 'w \<Rightarrow> int \<times> 'w"

text \<open>
  The window: the member \<open>compositions\<close>, the widgets of \<open>ui\<close> that the slots below
  read or write (the list widget as its item texts and its current row), and the
  three observable effects: the pop-ups shown, the serial calls made, the world.
\<close>

record ('c, 'w) MainWindow =
  compositions :: "'c list"
  jingleListWidget :: "string list"
  currentRow :: int
  musicXmlPathLineEdit :: string
  serialPortComboBox :: string
  memUsageProgressBar :: int
  memUsageCurrBytesLabel :: string
  popups :: "popup list"
  serial_calls :: "'c serial_call list"
  world :: 'w

definition information :: "popup \<Rightarrow> ('c, 'w) MainWindow \<Rightarrow> ('c, 'w) MainWindow" where
  "information msg st = st\<lparr>popups := popups st @ [msg]\<rparr>"

definition called ::
  "'c serial_call \<Rightarrow> 'w \<Rightarrow> ('c, 'w) MainWindow \<Rightarrow> ('c, 'w) MainWindow" where
  "called c w st = st\<lparr>serial_calls := serial_calls st @ [c], world := w\<rparr>"

subsection \<open>getSelectedComposition\<close>

text \<open>
  The pointer \<open>&compositions[i]\<close> is the index \<open>i\<close>, \<open>nullptr\<close> is \<open>None\<close>. The
  sizes of the vector are far below \<open>2^31\<close>, so \<open>static_cast<int>\<close> of the size is
  the size.
\<close>

definition getSelectedComposition ::
  "('c, 'w) MainWindow \<Rightarrow> nat option \<times> ('c, 'w) MainWindow" where
  "getSelectedComposition st =
     (let comp_idx = currentRow st in
      if comp_idx > int (length (compositions st)) \<or> comp_idx < 0
      then (None, information Invalid_Composition_selected st)
      else (Some (nat comp_idx), st))"

subsection \<open>on_playJinglePushButton_clicked\<close>

definition jingle_clear :: string where
  "jingle_clear = ''jingle clear'' @ [CHR 0x0A]"

definition jingle_play_0 :: string where
  "jingle_play_0 = ''jingle play 0'' @ [CHR 0x0A]"

definition on_playJinglePushButton_clicked ::
  "('c, 'w) collaborators \<Rightarrow> ('c, 'w) MainWindow \<Rightarrow> fault + ('c, 'w) MainWindow" where
  "on_playJinglePushButton_clicked env st =
     (let serial_port_name = serialPortComboBox st in
      if length (compositions st) = 0 then Inr (information No_Compositions_to_Play st)
      else
        case getSelectedComposition st of
          (None, st1) \<Rightarrow> Inr st1
        | (Some composition, st1) \<Rightarrow>
            (case SCSerial_open env serial_port_name (world st1) of
               (serial_err_code, w2) \<Rightarrow>
            let st2 = called (Open serial_port_name serial_err_code) w2 st1 in
            if serial_err_code \<noteq> NO_ERROR
            then Inr (information (Cannot_open serial_port_name serial_err_code) st2)
            else if length (compositions st2) \<le> composition then Inl UndefinedBehaviour
            else
              let comp = compositions st2 ! composition;
                  num_bytes = EEPROM_HDR_NUM_BYTES env + getMemUsage env comp
              in
              if num_bytes > MAX_EEPROM_BYTES env
              then Inr (information (Jingle_is_too_large num_bytes (MAX_EEPROM_BYTES env)) st2)
              else
                let cmd = jingle_clear;
                    resp = cmd @ [CHR 0x0D] @ ''Jingle data cleared successfully.''
                             @ [CHR 0x0A, CHR 0x0D]
                in
                (case SCSerial_send env serial_port_name cmd resp (world st2) of
                   (r3, w3) \<Rightarrow>
                let st3 = called (Send cmd resp r3) w3 st2 in
                if r3 \<noteq> 0 then Inr (information Failed_to_clear_Jingle_Data st3)
                else
                  (case download env comp serial_port_name 0 (world st3) of
                     (comp_err_code, w4) \<Rightarrow>
                  let st4 = called (Download comp 0 comp_err_code) w4 st3 in
                  if comp_err_code \<noteq> NO_ERROR
                  then Inr (information (Cannot_download_to serial_port_name comp_err_code) st4)
                  else
                    let cmd = jingle_play_0;
                        resp = cmd @ [CHR 0x0D] @ ''Jingle play started successfully.''
                                 @ [CHR 0x0A, CHR 0x0D]
                    in
                    (case SCSerial_send env serial_port_name cmd resp (world st4) of
                       (r5, w5) \<Rightarrow>
                    let st5 = called (Send cmd resp r5) w5 st4 in
                    if r5 \<noteq> 0 then Inr (information Failed_to_send_play_command st5)
                    else Inr st5)))))"

subsection \<open>QString and QListWidget\<close>

text \<open>
  The three \<open>QString\<close> operations the window uses, on lists of characters.
  \<open>split\<close> keeps empty parts, so its result is never empty; \<open>resize\<close> to a negative
  size is \<open>resize\<close> to 0 (the window never grows a string with it); \<open>number\<close>
  prints an unsigned value in decimal.
\<close>

fun QString_split :: "char \<Rightarrow> string \<Rightarrow> string list" where
  "QString_split sep [] = [[]]"
| "QString_split sep (c # cs) =
     (if c = sep then [] # QString_split sep cs
      else (c # hd (QString_split sep cs)) # tl (QString_split sep cs))"

definition QString_resize :: "int \<Rightarrow> string \<Rightarrow> string" where
  "QString_resize n s = take (nat n) s"

fun QString_number :: "nat \<Rightarrow> string" where
  "QString_number n =
     (if n < 10 then [''0123456789'' ! n]
      else QString_number (n div 10) @ [''0123456789'' ! (n mod 10)])"

text \<open>
  \<open>QListWidget\<close>, as the texts of its items: \<open>takeItem\<close> removes and returns the item
  of a row (\<open>nullptr\<close> when there is no such row), \<open>insertItem\<close> puts an item at a
  row, at the nearest end when the row is outside the list, and does nothing with
  \<open>nullptr\<close>; \<open>setCurrentItem\<close> makes the row of the item current (\<open>-1\<close> for
  \<open>nullptr\<close>).
\<close>

definition takeItem :: "int \<Rightarrow> string list \<Rightarrow> string option \<times> string list" where
  "takeItem row items =
     (if row < 0 \<or> int (length items) \<le> row then (None, items)
      else (Some (items ! nat row), take (nat row) items @ drop (Suc (nat row)) items))"

definition insertRow :: "int \<Rightarrow> string list \<Rightarrow> nat" where
  "insertRow row items = nat (max 0 (min row (int (length items))))"

definition insertItem :: "int \<Rightarrow> string option \<Rightarrow> string list \<Rightarrow> string list" where
  "insertItem row item items =
     (case item of
        None \<Rightarrow> items
      | Some text \<Rightarrow> take (insertRow row items) items @ [text] @ drop (insertRow row items) items)"

definition moveItem :: "int \<Rightarrow> int \<Rightarrow> ('c, 'w) MainWindow \<Rightarrow> ('c, 'w) MainWindow" where
  "moveItem from to st =
     (case takeItem from (jingleListWidget st) of
        (item, taken) \<Rightarrow>
          st\<lparr>jingleListWidget := insertItem to item taken,
             currentRow := (case item of None \<Rightarrow> - 1 | Some _ \<Rightarrow> int (insertRow to taken))\<rparr>)"

subsection \<open>updateMemUsage\<close>

text \<open>
  The loop of \<open>updateMemUsage\<close>: \<open>num_bytes\<close> is a \<open>uint32_t\<close> and wraps; the counter
  \<open>comp_idx\<close> only runs over the indices of the vector.
\<close>

function updateMemUsage_loop ::
  "('c, 'w) collaborators \<Rightarrow> 'c list \<Rightarrow> nat \<Rightarrow> 32 word \<Rightarrow> 32 word" where
  "updateMemUsage_loop env cs comp_idx num_bytes =
     (if comp_idx < length cs
      then updateMemUsage_loop env cs (comp_idx + 1) (num_bytes + getMemUsage env (cs ! comp_idx))
      else num_bytes)"
  by pat_completeness auto
termination
  by (relation "measure (\<lambda>(env, cs, comp_idx, num_bytes). length cs - comp_idx)") auto

definition PROG_BAR_MAX :: int where
  "PROG_BAR_MAX = 100"

definition updateMemUsage_num_bytes :: "('c, 'w) collaborators \<Rightarrow> 'c list \<Rightarrow> 32 word" where
  "updateMemUsage_num_bytes env cs = updateMemUsage_loop env cs 0 (EEPROM_HDR_NUM_BYTES env)"

text \<open>
  The argument of \<open>setValue\<close>. In \<open>PROG_BAR_MAX * num_bytes / MAX_EEPROM_BYTES\<close> the
  \<open>int\<close> constant is converted to unsigned, product and quotient are unsigned 32-bit,
  and the quotient is converted back to \<open>int\<close> for \<open>setValue\<close>.
\<close>

definition updateMemUsage_value :: "('c, 'w) collaborators \<Rightarrow> 32 word \<Rightarrow> int" where
  "updateMemUsage_value env num_bytes =
     (if num_bytes \<ge> MAX_EEPROM_BYTES env then PROG_BAR_MAX
      else sint ((word_of_int PROG_BAR_MAX * num_bytes) div MAX_EEPROM_BYTES env))"

definition updateMemUsage ::
  "('c, 'w) collaborators \<Rightarrow> ('c, 'w) MainWindow \<Rightarrow> ('c, 'w) MainWindow" where
  "updateMemUsage env st =
     (let num_bytes = updateMemUsage_num_bytes env (compositions st);
          bytes_used_str = QString_number (unat num_bytes) @ ''/''
             @ QString_number (unat (MAX_EEPROM_BYTES env)) @ '' bytes used''
      in st\<lparr>memUsageProgressBar := updateMemUsage_value env num_bytes,
            memUsageCurrBytesLabel := bytes_used_str\<rparr>)"

subsection \<open>updateCompositionDisplay\<close>

text \<open>
  The combo boxes and line edits this function fills are not part of the state; what
  remains is the selection check (with its pop-up) and the reads through the pointer.
  \<open>updateChordComboBox\<close>, called twice at the end, selects again on the same state
  and gets the same pointer.
\<close>

definition updateCompositionDisplay ::
  "('c, 'w) MainWindow \<Rightarrow> fault + ('c, 'w) MainWindow" where
  "updateCompositionDisplay st =
     (case getSelectedComposition st of
        (None, st1) \<Rightarrow> Inr st1
      | (Some composition, st1) \<Rightarrow>
          if length (compositions st1) \<le> composition then Inl UndefinedBehaviour
          else Inr st1)"

subsection \<open>on_convertPushButton_clicked\<close>

text \<open>Lines 184 to 191: the string that identifies the composition in the list.\<close>

definition identifier_string :: "string \<Rightarrow> string" where
  "identifier_string filename =
     (let list = QString_split (CHR ''/'') filename;
          filename = last list;
          list = QString_split (CHR 0x5C) filename;
          filename = last list
      in QString_resize (int (length filename) - int (length ''.musicxml'')) filename)"

definition on_convertPushButton_clicked ::
  "('c, 'w) collaborators \<Rightarrow> ('c, 'w) MainWindow \<Rightarrow> fault + ('c, 'w) MainWindow" where
  "on_convertPushButton_clicked env st =
     (if length (compositions st) > MAX_NUM_COMPS env
      then Inr (information Too_many_Compositions st)
      else
        let filename = musicXmlPathLineEdit st;
            st1 = st\<lparr>compositions := compositions st @ [Composition env filename]\<rparr>
        in
        (case parse env (last (compositions st1)) (world st1) of
           (comp_err_code, composition) \<Rightarrow>
        let st2 = st1\<lparr>compositions := butlast (compositions st1) @ [composition]\<rparr> in
        if NO_ERROR \<noteq> comp_err_code
        then Inr ((information (Failed_to_parse_file filename comp_err_code) st2)
                    \<lparr>compositions := butlast (compositions st2)\<rparr>)
        else
          let items = jingleListWidget st2 @ [identifier_string filename];
              st3 = st2\<lparr>jingleListWidget := items, currentRow := int (length items) - 1\<rparr>
          in
          (case updateCompositionDisplay st3 of
             Inl f \<Rightarrow> Inl f
           | Inr st4 \<Rightarrow> Inr (updateMemUsage env st4))))"

subsection \<open>on_mvJingleDownToolButton_clicked and on_mvJingleUpToolButton_clicked\<close>

definition on_mvJingleDownToolButton_clicked ::
  "('c, 'w) MainWindow \<Rightarrow> fault + ('c, 'w) MainWindow" where
  "on_mvJingleDownToolButton_clicked st =
     (case getSelectedComposition st of
        (None, st1) \<Rightarrow> Inr st1
      | (Some composition, st1) \<Rightarrow>
          let comp_idx = currentRow st1 in
          if comp_idx + 1 \<ge> int (length (compositions st1)) then Inr st1
          else
            let st2 = moveItem comp_idx (comp_idx + 1) st1;
                i = nat comp_idx;
                comp = compositions st2 ! i;
                cs1 = (compositions st2)[i := compositions st2 ! (i + 1)];
                cs2 = cs1[i + 1 := comp]
            in Inr (st2\<lparr>compositions := cs2\<rparr>))"

definition on_mvJingleUpToolButton_clicked ::
  "('c, 'w) MainWindow \<Rightarrow> fault + ('c, 'w) MainWindow" where
  "on_mvJingleUpToolButton_clicked st =
     (case getSelectedComposition st of
        (None, st1) \<Rightarrow> Inr st1
      | (Some composition, st1) \<Rightarrow>
          let comp_idx = currentRow st1 in
          if comp_idx = 0 then Inr st1
          else
            let st2 = moveItem comp_idx (comp_idx - 1) st1;
                i = nat comp_idx
            in
            if length (compositions st2) \<le> i then Inl out_of_range
            else
              let comp = compositions st2 ! i;
                  cs1 = (compositions st2)[i := compositions st2 ! (i - 1)];
                  cs2 = cs1[i - 1 := comp]
              in Inr (st2\<lparr>compositions := cs2\<rparr>))"

subsection \<open>on_delJingleToolButton_clicked and on_jingleListWidget_clicked\<close>

text \<open>
  \<open>erase\<close> at \<open>begin() + comp_idx\<close> needs an element there. The widgets cleared after
  it are not part of the state; \<open>setCurrentItem(nullptr)\<close> leaves no current row.
\<close>

definition on_delJingleToolButton_clicked ::
  "('c, 'w) collaborators \<Rightarrow> ('c, 'w) MainWindow \<Rightarrow> fault + ('c, 'w) MainWindow" where
  "on_delJingleToolButton_clicked env st =
     (case getSelectedComposition st of
        (None, st1) \<Rightarrow> Inr st1
      | (Some composition, st1) \<Rightarrow>
          let comp_idx = currentRow st1;
              i = nat comp_idx
          in
          if length (compositions st1) \<le> i then Inl UndefinedBehaviour
          else
            Inr (updateMemUsage env
              (st1\<lparr>compositions := take i (compositions st1) @ drop (Suc i) (compositions st1),
                   jingleListWidget := snd (takeItem comp_idx (jingleListWidget st1)),
                   currentRow := - 1\<rparr>)))"

definition on_jingleListWidget_clicked ::
  "('c, 'w) MainWindow \<Rightarrow> fault + ('c, 'w) MainWindow" where
  "on_jingleListWidget_clicked st =
     (if currentRow st < 0 then Inr st else updateCompositionDisplay st)"

subsection \<open>The windows a run can reach\<close>

text \<open>
  The constructor leaves \<open>compositions\<close> empty; the list widget starts without items
  and without a current row. From there a window changes by the slots above, by the
  user selecting a row of the list (or none, row \<open>-1\<close>), by the setters that the
  remaining slots call on a composition in place, and in the fields that neither the
  list nor the vector depend on (texts typed, pop-ups, the display of the memory
  usage, the serial line, the world). The relation is generous in the last two: it
  holds of every window a run reaches, and of more.
\<close>

inductive reachable :: "('c, 'w) collaborators \<Rightarrow> ('c, 'w) MainWindow \<Rightarrow> bool"
  for env :: "('c, 'w) collaborators" where
  constructed:
    "compositions st = [] \<Longrightarrow> jingleListWidget st = [] \<Longrightarrow> currentRow st = - 1 \<Longrightarrow>
     reachable env st"
| row_selected:
    "reachable env st \<Longrightarrow> - 1 \<le> r \<Longrightarrow> r < int (length (jingleListWidget st)) \<Longrightarrow>
     reachable env (st\<lparr>currentRow := r\<rparr>)"
| composition_set:
    "reachable env st \<Longrightarrow> i < length (compositions st) \<Longrightarrow>
     reachable env (st\<lparr>compositions := (compositions st)[i := c]\<rparr>)"
| other_fields:
    "reachable env st \<Longrightarrow>
     reachable env (st\<lparr>musicXmlPathLineEdit := path, serialPortComboBox := port,
                        memUsageProgressBar := v, memUsageCurrBytesLabel := label,
                        popups := ps, serial_calls := cs, world := w\<rparr>)"
| played:
    "reachable env st \<Longrightarrow> on_playJinglePushButton_clicked env st = Inr st' \<Longrightarrow>
     reachable env st'"
| converted:
    "reachable env st \<Longrightarrow> on_convertPushButton_clicked env st = Inr st' \<Longrightarrow>
     reachable env st'"
| deleted:
    "reachable env st \<Longrightarrow> on_delJingleToolButton_clicked env st = Inr st' \<Longrightarrow>
     reachable env st'"
| moved_down:
    "reachable env st \<Longrightarrow> on_mvJingleDownToolButton_clicked st = Inr st' \<Longrightarrow>
     reachable env st'"
| moved_up:
    "reachable env st \<Longrightarrow> on_mvJingleUpToolButton_clicked st = Inr st' \<Longrightarrow>
     reachable env st'"
| clicked:
    "reachable env st \<Longrightarrow> on_jingleListWidget_clicked st = Inr st' \<Longrightarrow>
     reachable env st'"

text \<open>
  What every reachable window satisfies: the list has one item for each composition,
  and the current row is \<open>-1\<close> or the row of an item.
\<close>

definition rows_agree :: "('c, 'w) MainWindow \<Rightarrow> bool" where
  "rows_agree st \<longleftrightarrow>
     length (jingleListWidget st) = length (compositions st) \<and>
     - 1 \<le> currentRow st \<and> currentRow st < int (length (jingleListWidget st))"

subsection \<open>A test double for the collaborators\<close>

text \<open>
  Modelled from the spec: \<open>SCSerial::send\<close> is not part of the given sources. It
  writes the command, reads the response back and succeeds only if the response
  starts with the expected response; the device is the function from a command to
  the response it gives.
\<close>

definition mock_send :: "(string \<Rightarrow> string) \<Rightarrow> string \<Rightarrow> string \<Rightarrow> int" where
  "mock_send device command expectedResponsePrefix =
     (if prefix expectedResponsePrefix (device command) then 0 else 1)"

text \<open>A device that acknowledges the two commands, and one that answers ERROR.\<close>

definition device_ok :: "string \<Rightarrow> string" where
  "device_ok command =
     (if command = ''jingle clear'' @ [CHR 0x0A]
      then command @ [CHR 0x0D] @ ''Jingle data cleared successfully.'' @ [CHR 0x0A, CHR 0x0D]
      else if command = ''jingle play 0'' @ [CHR 0x0A]
      then command @ [CHR 0x0D] @ ''Jingle play started successfully.'' @ [CHR 0x0A, CHR 0x0D]
      else command @ [CHR 0x0D] @ ''ERROR'' @ [CHR 0x0A, CHR 0x0D])"

definition device_error :: "string \<Rightarrow> string" where
  "device_error command = command @ [CHR 0x0D] @ ''ERROR'' @ [CHR 0x0A, CHR 0x0D]"

text \<open>
  A composition of the test double is its file name and its memory usage. A file
  parses when its name ends in \<open>.musicxml\<close>, to a score of 100 bytes. The budget is
  that of the spec's scenario: 1000 bytes, 10 of them for the header.
\<close>

definition mock_env ::
  "(string \<Rightarrow> string) \<Rightarrow> (string \<times> 32 word, unit) collaborators" where
  "mock_env device =
     \<lparr>EEPROM_HDR_NUM_BYTES = 10,
      MAX_EEPROM_BYTES = 1000,
      MAX_NUM_COMPS = 2,
      Composition = (\<lambda>filename. (filename, 0)),
      parse = (\<lambda>c w. if suffix ''.musicxml'' (fst c) then (NO_ERROR, (fst c, 100))
                       else (ERROR 1, c)),
      getMemUsage = snd,
      download = (\<lambda>c port idx w. (NO_ERROR, w)),
      SCSerial_open = (\<lambda>port w. (NO_ERROR, w)),
      SCSerial_send = (\<lambda>port command resp w. (mock_send device command resp, w))\<rparr>"

definition mock_window ::
  "(string \<times> 32 word) list \<Rightarrow> int \<Rightarrow> string \<Rightarrow> (string \<times> 32 word, unit) MainWindow" where
  "mock_window cs row path =
     \<lparr>compositions = cs,
      jingleListWidget = map fst cs,
      currentRow = row,
      musicXmlPathLineEdit = path,
      serialPortComboBox = ''COM3'',
      memUsageProgressBar = 0,
      memUsageCurrBytesLabel = [],
      popups = [],
      serial_calls = [],
      world = ()\<rparr>"

section \<open>Properties\<close>

subsection \<open>Selection and the serial sequence of download-and-play\<close>

lemma getSelectedComposition_valid:
  "0 \<le> currentRow st \<Longrightarrow> currentRow st \<le> int (length (compositions st)) \<Longrightarrow>
   getSelectedComposition st = (Some (nat (currentRow st)), st)"
  by (simp add: getSelectedComposition_def)


lemma play_calls_shape:
  assumes "on_playJinglePushButton_clicked env st = Inr st'"
  shows "\<exists>calls. serial_calls st' = serial_calls st @ calls \<and> compositions st' = compositions st \<and>
    (calls = [] \<or>
     (\<exists>e. calls = [Open (serialPortComboBox st) e]) \<or>
     (\<exists>r. r \<noteq> 0 \<and> popups st' = popups st @ [Failed_to_clear_Jingle_Data] \<and>
        calls = [Open (serialPortComboBox st) NO_ERROR,
          Send (''jingle clear'' @ [CHR 0x0A])
               (''jingle clear'' @ [CHR 0x0A, CHR 0x0D] @ ''Jingle data cleared successfully.'' @ [CHR 0x0A, CHR 0x0D]) r]) \<or>
     (\<exists>e. calls = [Open (serialPortComboBox st) NO_ERROR,
          Send (''jingle clear'' @ [CHR 0x0A])
               (''jingle clear'' @ [CHR 0x0A, CHR 0x0D] @ ''Jingle data cleared successfully.'' @ [CHR 0x0A, CHR 0x0D]) 0,
          Download (compositions st ! nat (currentRow st)) 0 e]) \<or>
     (\<exists>r. calls = [Open (serialPortComboBox st) NO_ERROR,
          Send (''jingle clear'' @ [CHR 0x0A])
               (''jingle clear'' @ [CHR 0x0A, CHR 0x0D] @ ''Jingle data cleared successfully.'' @ [CHR 0x0A, CHR 0x0D]) 0,
          Download (compositions st ! nat (currentRow st)) 0 NO_ERROR,
          Send (''jingle play 0'' @ [CHR 0x0A])
               (''jingle play 0'' @ [CHR 0x0A, CHR 0x0D] @ ''Jingle play started successfully.'' @ [CHR 0x0A, CHR 0x0D]) r]))"
  using assms
  unfolding on_playJinglePushButton_clicked_def getSelectedComposition_def Let_def
    information_def called_def jingle_clear_def jingle_play_0_def
  by (auto split: if_splits prod.splits)

text \<open>
  The slot returns whenever the current row is below the number of compositions; its
  only undefined end is the row equal to that number, after the port has opened.
\<close>

lemma play_returns:
  assumes "currentRow st < int (length (compositions st))"
  shows "\<exists>st'. on_playJinglePushButton_clicked env st = Inr st'"
  using assms
  unfolding on_playJinglePushButton_clicked_def getSelectedComposition_def Let_def
    information_def called_def
  by (auto split: prod.splits)

text \<open>
  C1. In every run of download-and-play, once the send of the clear command has
  reported a failure, the run is over: the serial calls it made are the open and that
  send, the failure is shown, the compositions are as before, and neither a download
  of the payload nor the play command was attempted.
\<close>

theorem failed_clear_ends_play:
  assumes "on_playJinglePushButton_clicked env st = Inr st'"
    and "serial_calls st' = serial_calls st @ calls"
    and "Send (''jingle clear'' @ [CHR 0x0A]) resp r \<in> set calls"
    and "r \<noteq> 0"
  shows "calls = [Open (serialPortComboBox st) NO_ERROR,
                  Send (''jingle clear'' @ [CHR 0x0A])
                    (''jingle clear'' @ [CHR 0x0A, CHR 0x0D] @ ''Jingle data cleared successfully.''
                       @ [CHR 0x0A, CHR 0x0D]) r]
       \<and> popups st' = popups st @ [Failed_to_clear_Jingle_Data]
       \<and> compositions st' = compositions st
       \<and> (\<forall>c i e. Download c i e \<notin> set calls)
       \<and> (\<forall>resp' r'. Send (''jingle play 0'' @ [CHR 0x0A]) resp' r' \<notin> set calls)"
  using play_calls_shape [OF assms(1)] assms(2-4) by auto

theorem failed_clear_ends_play_witness:
  "on_playJinglePushButton_clicked (mock_env device_error) (mock_window [(''tune'', 5)] 0 []) =
     Inr ((mock_window [(''tune'', 5)] 0 [])
       \<lparr>popups := [Failed_to_clear_Jingle_Data],
        serial_calls := [Open ''COM3'' NO_ERROR,
          Send (''jingle clear'' @ [CHR 0x0A])
            (''jingle clear'' @ [CHR 0x0A, CHR 0x0D] @ ''Jingle data cleared successfully.''
               @ [CHR 0x0A, CHR 0x0D]) 1]\<rparr>)"
proof -
  let ?st = "mock_window [(''tune'', 5)] 0 [] :: (string \<times> 32 word, unit) MainWindow"
  let ?calls = "[Open ''COM3'' NO_ERROR,
          Send (''jingle clear'' @ [CHR 0x0A])
            (''jingle clear'' @ [CHR 0x0A, CHR 0x0D] @ ''Jingle data cleared successfully.''
               @ [CHR 0x0A, CHR 0x0D]) 1] :: (string \<times> 32 word) serial_call list"
  let ?st' = "?st\<lparr>popups := [Failed_to_clear_Jingle_Data], serial_calls := ?calls\<rparr>"
  have run: "on_playJinglePushButton_clicked (mock_env device_error) ?st = Inr ?st'"
    by (simp add: on_playJinglePushButton_clicked_def getSelectedComposition_def mock_env_def
        mock_window_def mock_send_def device_error_def called_def information_def
        jingle_clear_def)
  have calls: "serial_calls ?st' = serial_calls ?st @ ?calls"
    by (simp add: mock_window_def)
  have sent: "Send (''jingle clear'' @ [CHR 0x0A])
            (''jingle clear'' @ [CHR 0x0A, CHR 0x0D] @ ''Jingle data cleared successfully.''
               @ [CHR 0x0A, CHR 0x0D]) 1 \<in> set ?calls"
    by simp
  have "(1::int) \<noteq> 0" by simp
  from failed_clear_ends_play [OF run calls sent this] run show ?thesis by simp
qed

text \<open>
  C3. In every run of download-and-play, whatever is sent is a command of the protocol
  table with its expected response. The clear command \<open>jingle clear\n\<close>, expecting
  \<open>jingle clear\n\rJingle data cleared successfully.\n\r\<close>, is the first thing sent
  once the port is open. The play command is \<open>jingle play 0\n\<close>, expecting
  \<open>jingle play 0\n\rJingle play started successfully.\n\r\<close>, and it is sent only after
  a successful clear and a successful download of the selected composition to index 0.
\<close>

theorem play_commands_are_the_protocol:
  assumes "on_playJinglePushButton_clicked env st = Inr st'"
  shows "\<exists>calls. serial_calls st' = serial_calls st @ calls \<and>
    (\<forall>cmd resp r. Send cmd resp r \<in> set calls \<longrightarrow>
       (cmd = ''jingle clear'' @ [CHR 0x0A] \<and>
        resp = ''jingle clear'' @ [CHR 0x0A, CHR 0x0D] @ ''Jingle data cleared successfully.''
                 @ [CHR 0x0A, CHR 0x0D] \<and>
        take 2 calls = [Open (serialPortComboBox st) NO_ERROR, Send cmd resp r]) \<or>
       (cmd = ''jingle play 0'' @ [CHR 0x0A] \<and>
        resp = ''jingle play 0'' @ [CHR 0x0A, CHR 0x0D] @ ''Jingle play started successfully.''
                 @ [CHR 0x0A, CHR 0x0D] \<and>
        calls = [Open (serialPortComboBox st) NO_ERROR,
                 Send (''jingle clear'' @ [CHR 0x0A])
                   (''jingle clear'' @ [CHR 0x0A, CHR 0x0D] @ ''Jingle data cleared successfully.''
                      @ [CHR 0x0A, CHR 0x0D]) 0,
                 Download (compositions st ! nat (currentRow st)) 0 NO_ERROR,
                 Send cmd resp r]))"
  using assms
  unfolding on_playJinglePushButton_clicked_def getSelectedComposition_def Let_def
    information_def called_def jingle_clear_def jingle_play_0_def
  by (auto split: if_splits prod.splits)

theorem play_commands_are_the_protocol_witness:
  "serial_calls (projr (on_playJinglePushButton_clicked (mock_env device_ok)
       (mock_window [(''tune'', 5)] 0 []))) =
     [Open ''COM3'' NO_ERROR,
      Send (''jingle clear'' @ [CHR 0x0A])
        (''jingle clear'' @ [CHR 0x0A, CHR 0x0D] @ ''Jingle data cleared successfully.''
           @ [CHR 0x0A, CHR 0x0D]) 0,
      Download (''tune'', 5) 0 NO_ERROR,
      Send (''jingle play 0'' @ [CHR 0x0A])
        (''jingle play 0'' @ [CHR 0x0A, CHR 0x0D] @ ''Jingle play started successfully.''
           @ [CHR 0x0A, CHR 0x0D]) 0]"
proof -
  let ?st = "mock_window [(''tune'', 5)] 0 [] :: (string \<times> 32 word, unit) MainWindow"
  let ?r = "on_playJinglePushButton_clicked (mock_env device_ok) ?st"
  have run: "?r = Inr (projr ?r)"
    by (simp add: on_playJinglePushButton_clicked_def getSelectedComposition_def mock_env_def
        mock_window_def mock_send_def device_ok_def called_def information_def
        jingle_clear_def jingle_play_0_def Let_def)
  have sent: "Send (''jingle play 0'' @ [CHR 0x0A])
        (''jingle play 0'' @ [CHR 0x0A, CHR 0x0D] @ ''Jingle play started successfully.''
           @ [CHR 0x0A, CHR 0x0D]) 0 \<in> set (serial_calls (projr ?r))"
    by (simp add: on_playJinglePushButton_clicked_def getSelectedComposition_def mock_env_def
        mock_window_def mock_send_def device_ok_def called_def information_def
        jingle_clear_def jingle_play_0_def Let_def)
  have old: "serial_calls ?st = []" "serialPortComboBox ?st = ''COM3''"
    "compositions ?st ! nat (currentRow ?st) = (''tune'', 5)"
    by (simp_all add: mock_window_def)
  from play_commands_are_the_protocol [OF run] sent old show ?thesis
    by auto
qed

text \<open>
  C2, as amended. With a composition selected, download-and-play checks
  \<open>EEPROM_HDR_NUM_BYTES\<close> plus \<open>getMemUsage()\<close> of the selected composition, a 32-bit
  unsigned sum, against \<open>MAX_EEPROM_BYTES\<close>. When the sum is larger, the slot ends
  with one error shown (the capacity error when the port opened, the error of \<open>open\<close>
  otherwise), the only serial call made is \<open>open\<close>, nothing is sent, and the
  compositions are not changed.
\<close>

theorem oversized_selection_blocks_play:
  assumes "0 \<le> currentRow st" and "currentRow st < int (length (compositions st))"
    and "MAX_EEPROM_BYTES env <
           EEPROM_HDR_NUM_BYTES env + getMemUsage env (compositions st ! nat (currentRow st))"
    and "SCSerial_open env (serialPortComboBox st) (world st) = (e, w)"
  shows "on_playJinglePushButton_clicked env st =
     Inr (st\<lparr>popups := popups st @
               [if e = NO_ERROR
                then Jingle_is_too_large
                  (EEPROM_HDR_NUM_BYTES env + getMemUsage env (compositions st ! nat (currentRow st)))
                  (MAX_EEPROM_BYTES env)
                else Cannot_open (serialPortComboBox st) e],
             serial_calls := serial_calls st @ [Open (serialPortComboBox st) e],
             world := w\<rparr>)"
  using assms
  by (cases "compositions st")
     (auto simp add: on_playJinglePushButton_clicked_def getSelectedComposition_valid
        information_def called_def Let_def)

theorem oversized_selection_blocks_play_witness:
  "on_playJinglePushButton_clicked (mock_env device_ok) (mock_window [(''tune'', 995)] 0 []) =
     Inr ((mock_window [(''tune'', 995)] 0 [])
       \<lparr>popups := [Jingle_is_too_large 1005 1000],
        serial_calls := [Open ''COM3'' NO_ERROR]\<rparr>)"
proof -
  let ?st = "mock_window [(''tune'', 995)] 0 [] :: (string \<times> 32 word, unit) MainWindow"
  let ?env = "mock_env device_ok"
  have row: "0 \<le> currentRow ?st" "currentRow ?st < int (length (compositions ?st))"
    by (simp_all add: mock_window_def)
  have big: "MAX_EEPROM_BYTES ?env <
      EEPROM_HDR_NUM_BYTES ?env + getMemUsage ?env (compositions ?st ! nat (currentRow ?st))"
    by (simp add: mock_window_def mock_env_def)
  have opened: "SCSerial_open ?env (serialPortComboBox ?st) (world ?st) = (NO_ERROR, ())"
    by (simp add: mock_env_def)
  from oversized_selection_blocks_play [OF row big opened] show ?thesis
    by (simp add: mock_window_def mock_env_def)
qed

text \<open>
  C2, as stated, fails: two compositions of 600 bytes exceed the budget of 1000 bytes
  together with the header, yet the first of them is downloaded and played without an
  error, because the check reads the selected composition only.
\<close>

theorem budget_over_all_compositions_counterexample:
  "unat (MAX_EEPROM_BYTES (mock_env device_ok)) <
     unat (EEPROM_HDR_NUM_BYTES (mock_env device_ok)) +
     sum_list (map (\<lambda>c. unat (getMemUsage (mock_env device_ok) c)) [(''a'', 600), (''b'', 600)])
   \<and> (\<exists>st'. on_playJinglePushButton_clicked (mock_env device_ok)
              (mock_window [(''a'', 600), (''b'', 600)] 0 []) = Inr st'
         \<and> popups st' = []
         \<and> Download (''a'', 600) 0 NO_ERROR \<in> set (serial_calls st'))"
  by (simp add: on_playJinglePushButton_clicked_def getSelectedComposition_def mock_env_def
        mock_window_def mock_send_def device_ok_def called_def information_def
        jingle_clear_def jingle_play_0_def Let_def)

subsection \<open>Adding a composition\<close>

text \<open>
  C4. For every file path: when parse() fails, the slot ends with the compositions as
  they were before it (the composition pushed for the parse is popped again) and with
  one error shown; nothing else of the window changes. A set that is already over
  its capacity is refused before the parse, with the set unchanged as well.
\<close>

theorem failed_parse_restores_compositions:
  assumes "parse env (Composition env (musicXmlPathLineEdit st)) (world st) = (e, c)"
    and "e \<noteq> NO_ERROR"
  shows "on_convertPushButton_clicked env st =
     Inr (st\<lparr>popups := popups st @
       [if MAX_NUM_COMPS env < length (compositions st) then Too_many_Compositions
        else Failed_to_parse_file (musicXmlPathLineEdit st) e]\<rparr>)
     \<and> compositions (projr (on_convertPushButton_clicked env st)) = compositions st"
  using assms
  by (auto simp add: on_convertPushButton_clicked_def information_def Let_def)

theorem failed_parse_restores_compositions_witness:
  "on_convertPushButton_clicked (mock_env device_ok)
       (mock_window [(''tune'', 5)] 0 ''/home/u/notes.txt'') =
     Inr ((mock_window [(''tune'', 5)] 0 ''/home/u/notes.txt'')
            \<lparr>popups := [Failed_to_parse_file ''/home/u/notes.txt'' (ERROR 1)]\<rparr>)"
proof -
  let ?st = "mock_window [(''tune'', 5)] 0 ''/home/u/notes.txt''
               :: (string \<times> 32 word, unit) MainWindow"
  let ?env = "mock_env device_ok"
  have p: "parse ?env (Composition ?env (musicXmlPathLineEdit ?st)) (world ?st) =
      (ERROR 1, (''/home/u/notes.txt'', 0))"
    by (simp add: mock_env_def mock_window_def suffix_def)
  have e: "ERROR 1 \<noteq> NO_ERROR" by simp
  from failed_parse_restores_compositions [OF p e] show ?thesis
    by (simp add: mock_env_def mock_window_def)
qed

text \<open>
  C6. The capacity guard compares with \<open>>\<close>: a set that holds exactly
  \<open>MAX_NUM_COMPS\<close> compositions (here 2) accepts one more without an error.
\<close>

theorem convert_accepts_one_too_many:
  "MAX_NUM_COMPS (mock_env device_ok) = 2
   \<and> length (compositions (mock_window [(''a'', 100), (''b'', 100)] 1 ''/home/u/c.musicxml'')) = 2
   \<and> (\<exists>st'. on_convertPushButton_clicked (mock_env device_ok)
               (mock_window [(''a'', 100), (''b'', 100)] 1 ''/home/u/c.musicxml'') = Inr st'
         \<and> compositions st' = [(''a'', 100), (''b'', 100), (''/home/u/c.musicxml'', 100)]
         \<and> popups st' = [])"
  by (simp add: on_convertPushButton_clicked_def mock_env_def mock_window_def Let_def
      updateCompositionDisplay_def getSelectedComposition_def updateMemUsage_def information_def
      suffix_def)

subsection \<open>Moving a composition up and down\<close>

lemma compositions_moveItem [simp]: "compositions (moveItem a b st) = compositions st"
  by (simp add: moveItem_def split: prod.splits)

lemma swap_adjacent:
  assumes "i < length cs" and "j < length cs"
  shows "length (cs[i := cs ! j, j := cs ! i]) = length cs"
    and "cs[i := cs ! j, j := cs ! i] ! j = cs ! i"
    and "i \<noteq> j \<Longrightarrow> cs[i := cs ! j, j := cs ! i] ! i = cs ! j"
    and "k \<noteq> i \<Longrightarrow> k \<noteq> j \<Longrightarrow> cs[i := cs ! j, j := cs ! i] ! k = cs ! k"
    and "mset (cs[i := cs ! j, j := cs ! i]) = mset cs"
  using assms by (simp_all add: mset_swap)

lemma mvJingleUp_swap:
  assumes "currentRow st = int idx" and "0 < idx" and "idx < length (compositions st)"
  shows "on_mvJingleUpToolButton_clicked st =
    Inr ((moveItem (int idx) (int idx - 1) st)
      \<lparr>compositions := (compositions st)[idx := compositions st ! (idx - 1),
                                          idx - 1 := compositions st ! idx]\<rparr>)"
  using assms
  by (simp add: on_mvJingleUpToolButton_clicked_def getSelectedComposition_valid Let_def)

lemma mvJingleDown_swap:
  assumes "currentRow st = int idx" and "Suc idx < length (compositions st)"
  shows "on_mvJingleDownToolButton_clicked st =
    Inr ((moveItem (int idx) (int idx + 1) st)
      \<lparr>compositions := (compositions st)[idx := compositions st ! (idx + 1),
                                          idx + 1 := compositions st ! idx]\<rparr>)"
  using assms
  by (simp add: on_mvJingleDownToolButton_clicked_def getSelectedComposition_valid Let_def)

text \<open>
  C5. With the row \<open>idx\<close> of a composition selected: moving up at the first row and
  moving down at the last row leave the window as it is; otherwise the slot exchanges
  the composition at \<open>idx\<close> with its neighbour (above for up, below for down), every
  other slot keeps its composition, the compositions themselves are not changed, and
  the sequence after is a permutation of the sequence before.
\<close>

theorem move_up_and_down:
  assumes "currentRow st = int idx" and "idx < length (compositions st)"
  shows "(idx = 0 \<longrightarrow> on_mvJingleUpToolButton_clicked st = Inr st)
    \<and> (Suc idx = length (compositions st) \<longrightarrow> on_mvJingleDownToolButton_clicked st = Inr st)
    \<and> (0 < idx \<longrightarrow>
         (\<exists>st'. on_mvJingleUpToolButton_clicked st = Inr st'
            \<and> length (compositions st') = length (compositions st)
            \<and> compositions st' ! (idx - 1) = compositions st ! idx
            \<and> compositions st' ! idx = compositions st ! (idx - 1)
            \<and> (\<forall>k. k \<noteq> idx \<and> k \<noteq> idx - 1 \<longrightarrow> compositions st' ! k = compositions st ! k)
            \<and> mset (compositions st') = mset (compositions st)))
    \<and> (Suc idx < length (compositions st) \<longrightarrow>
         (\<exists>st'. on_mvJingleDownToolButton_clicked st = Inr st'
            \<and> length (compositions st') = length (compositions st)
            \<and> compositions st' ! (idx + 1) = compositions st ! idx
            \<and> compositions st' ! idx = compositions st ! (idx + 1)
            \<and> (\<forall>k. k \<noteq> idx \<and> k \<noteq> idx + 1 \<longrightarrow> compositions st' ! k = compositions st ! k)
            \<and> mset (compositions st') = mset (compositions st)))"
proof (intro conjI impI)
  assume "idx = 0"
  with assms show "on_mvJingleUpToolButton_clicked st = Inr st"
    by (simp add: on_mvJingleUpToolButton_clicked_def getSelectedComposition_valid)
next
  assume "Suc idx = length (compositions st)"
  with assms show "on_mvJingleDownToolButton_clicked st = Inr st"
    by (simp add: on_mvJingleDownToolButton_clicked_def getSelectedComposition_valid)
next
  assume pos: "0 < idx"
  then have below: "idx - 1 < length (compositions st)" "idx \<noteq> idx - 1"
    using assms(2) by simp_all
  show "\<exists>st'. on_mvJingleUpToolButton_clicked st = Inr st'
            \<and> length (compositions st') = length (compositions st)
            \<and> compositions st' ! (idx - 1) = compositions st ! idx
            \<and> compositions st' ! idx = compositions st ! (idx - 1)
            \<and> (\<forall>k. k \<noteq> idx \<and> k \<noteq> idx - 1 \<longrightarrow> compositions st' ! k = compositions st ! k)
            \<and> mset (compositions st') = mset (compositions st)"
    using swap_adjacent [OF assms(2) below(1)] below(2)
    by (simp add: mvJingleUp_swap [OF assms(1) pos assms(2)])
next
  assume next_row: "Suc idx < length (compositions st)"
  then have above: "idx + 1 < length (compositions st)" "idx \<noteq> idx + 1"
    by simp_all
  show "\<exists>st'. on_mvJingleDownToolButton_clicked st = Inr st'
            \<and> length (compositions st') = length (compositions st)
            \<and> compositions st' ! (idx + 1) = compositions st ! idx
            \<and> compositions st' ! idx = compositions st ! (idx + 1)
            \<and> (\<forall>k. k \<noteq> idx \<and> k \<noteq> idx + 1 \<longrightarrow> compositions st' ! k = compositions st ! k)
            \<and> mset (compositions st') = mset (compositions st)"
    using swap_adjacent [OF assms(2) above(1)] above(2)
    by (simp add: mvJingleDown_swap [OF assms(1) next_row])
qed

theorem move_up_and_down_witness:
  "compositions (projr (on_mvJingleUpToolButton_clicked
       (mock_window [(''a'', 1), (''b'', 2), (''c'', 3)] 1 []))) = [(''b'', 2), (''a'', 1), (''c'', 3)]
   \<and> compositions (projr (on_mvJingleDownToolButton_clicked
       (mock_window [(''a'', 1), (''b'', 2), (''c'', 3)] 1 []))) = [(''a'', 1), (''c'', 3), (''b'', 2)]
   \<and> mset (compositions (projr (on_mvJingleUpToolButton_clicked
       (mock_window [(''a'', 1), (''b'', 2), (''c'', 3)] 1 [])))) =
     mset [(''a'', 1), (''b'', 2), (''c'', 3)]"
proof -
  let ?st = "mock_window [(''a'', 1), (''b'', 2), (''c'', 3)] 1 [] :: (string \<times> 32 word, unit) MainWindow"
  have row: "currentRow ?st = int 1" and inside: "1 < length (compositions ?st)"
    by (simp_all add: mock_window_def)
  have up: "compositions (projr (on_mvJingleUpToolButton_clicked ?st)) = [(''b'', 2), (''a'', 1), (''c'', 3)]"
    by (simp add: on_mvJingleUpToolButton_clicked_def getSelectedComposition_def Let_def
        mock_window_def moveItem_def takeItem_def insertItem_def insertRow_def)
  have down: "compositions (projr (on_mvJingleDownToolButton_clicked ?st)) = [(''a'', 1), (''c'', 3), (''b'', 2)]"
    by (simp add: on_mvJingleDownToolButton_clicked_def getSelectedComposition_def Let_def
        mock_window_def moveItem_def takeItem_def insertItem_def insertRow_def)
  from move_up_and_down [OF row inside] up down show ?thesis
    by (auto simp add: mock_window_def)
qed

subsection \<open>The memory usage display\<close>

declare updateMemUsage_loop.simps [simp del]
declare QString_number.simps [simp del]

lemma updateMemUsage_loop_sum:
  "comp_idx \<le> length cs \<Longrightarrow>
   updateMemUsage_loop env cs comp_idx num_bytes =
     num_bytes + sum_list (map (getMemUsage env) (drop comp_idx cs))"
proof (induction env cs comp_idx num_bytes rule: updateMemUsage_loop.induct)
  case (1 env cs comp_idx num_bytes)
  show ?case
  proof (cases "comp_idx < length cs")
    case True
    then have "drop comp_idx cs = cs ! comp_idx # drop (Suc comp_idx) cs"
      by (simp add: Cons_nth_drop_Suc)
    with True "1.IH" show ?thesis
      by (subst updateMemUsage_loop.simps) (simp add: add.assoc)
  next
    case False
    with "1.prems" show ?thesis
      by (subst updateMemUsage_loop.simps) simp
  qed
qed

lemma updateMemUsage_num_bytes_sum:
  "updateMemUsage_num_bytes env cs =
     EEPROM_HDR_NUM_BYTES env + sum_list (map (getMemUsage env) cs)"
  by (simp add: updateMemUsage_num_bytes_def updateMemUsage_loop_sum)

lemma sum_list_map_mset:
  fixes f :: "'a \<Rightarrow> 'b::comm_monoid_add"
  assumes "mset xs = mset ys"
  shows "sum_list (map f xs) = sum_list (map f ys)"
proof -
  have "sum_list (map f xs) = sum_mset (image_mset f (mset xs))"
    by (simp flip: sum_mset_sum_list)
  also have "\<dots> = sum_mset (image_mset f (mset ys))"
    by (simp add: assms)
  also have "\<dots> = sum_list (map f ys)"
    by (simp flip: sum_mset_sum_list)
  finally show ?thesis .
qed

lemma unat_sum_list_exact:
  fixes g :: "'a \<Rightarrow> 32 word"
  shows "unat a + sum_list (map (\<lambda>c. unat (g c)) cs) < 2 ^ 32 \<Longrightarrow>
         unat (a + sum_list (map g cs)) = unat a + sum_list (map (\<lambda>c. unat (g c)) cs)"
proof (induction cs arbitrary: a)
  case Nil
  then show ?case by simp
next
  case (Cons c cs)
  from Cons.prems have small: "unat a + unat (g c) < 2 ^ 32" by simp
  then have ac: "unat (a + g c) = unat a + unat (g c)"
    using unat_add_lem [of a "g c"] by simp
  with Cons.prems have "unat (a + g c) + sum_list (map (\<lambda>c. unat (g c)) cs) < 2 ^ 32"
    by simp
  from Cons.IH [OF this] ac show ?case
    by (simp add: add.assoc)
qed

text \<open>
  C7. The number of bytes that updateMemUsage computes for the quota display is
  \<open>EEPROM_HDR_NUM_BYTES\<close> plus the sum of \<open>getMemUsage()\<close> over the compositions, as
  the \<open>uint32_t\<close> sum the loop forms, and it is the same for every permutation of the
  compositions. When the exact sum fits in 32 bits, the number is the exact sum. The
  label shows this number before the capacity.
\<close>

theorem total_memory_usage:
  "updateMemUsage_num_bytes env cs =
      EEPROM_HDR_NUM_BYTES env + sum_list (map (getMemUsage env) cs)
   \<and> (\<forall>cs'. mset cs' = mset cs \<longrightarrow>
          updateMemUsage_num_bytes env cs' = updateMemUsage_num_bytes env cs)
   \<and> (unat (EEPROM_HDR_NUM_BYTES env) + sum_list (map (\<lambda>c. unat (getMemUsage env c)) cs) < 2 ^ 32 \<longrightarrow>
        unat (updateMemUsage_num_bytes env cs) =
          unat (EEPROM_HDR_NUM_BYTES env) + sum_list (map (\<lambda>c. unat (getMemUsage env c)) cs))
   \<and> memUsageCurrBytesLabel (updateMemUsage env (st\<lparr>compositions := cs\<rparr>)) =
        QString_number (unat (EEPROM_HDR_NUM_BYTES env + sum_list (map (getMemUsage env) cs)))
          @ ''/'' @ QString_number (unat (MAX_EEPROM_BYTES env)) @ '' bytes used''"
proof (intro conjI allI impI)
  show "updateMemUsage_num_bytes env cs =
      EEPROM_HDR_NUM_BYTES env + sum_list (map (getMemUsage env) cs)"
    by (rule updateMemUsage_num_bytes_sum)
next
  fix cs' :: "'a list"
  assume "mset cs' = mset cs"
  then show "updateMemUsage_num_bytes env cs' = updateMemUsage_num_bytes env cs"
    by (simp add: updateMemUsage_num_bytes_sum sum_list_map_mset [of cs' cs])
next
  assume "unat (EEPROM_HDR_NUM_BYTES env) + sum_list (map (\<lambda>c. unat (getMemUsage env c)) cs) < 2 ^ 32"
  then show "unat (updateMemUsage_num_bytes env cs) =
          unat (EEPROM_HDR_NUM_BYTES env) + sum_list (map (\<lambda>c. unat (getMemUsage env c)) cs)"
    by (simp add: updateMemUsage_num_bytes_sum unat_sum_list_exact)
next
  show "memUsageCurrBytesLabel (updateMemUsage env (st\<lparr>compositions := cs\<rparr>)) =
        QString_number (unat (EEPROM_HDR_NUM_BYTES env + sum_list (map (getMemUsage env) cs)))
          @ ''/'' @ QString_number (unat (MAX_EEPROM_BYTES env)) @ '' bytes used''"
    by (simp add: updateMemUsage_def updateMemUsage_num_bytes_sum Let_def)
qed

theorem total_memory_usage_witness:
  "updateMemUsage_num_bytes (mock_env device_ok) [(''a'', 100), (''b'', 200)] = 310
   \<and> updateMemUsage_num_bytes (mock_env device_ok) [(''b'', 200), (''a'', 100)] = 310
   \<and> memUsageCurrBytesLabel (updateMemUsage (mock_env device_ok)
        (mock_window [(''a'', 100), (''b'', 200)] 0 [])) = ''310/1000 bytes used''"
proof -
  let ?env = "mock_env device_ok"
  let ?cs = "[(''a'', 100), (''b'', 200)] :: (string \<times> 32 word) list"
  let ?st = "mock_window ?cs 0 [] :: (string \<times> 32 word, unit) MainWindow"
  have perm: "mset [(''b'', 200), (''a'', 100) :: string \<times> 32 word] = mset ?cs"
    by simp
  have small: "unat (EEPROM_HDR_NUM_BYTES ?env) + sum_list (map (\<lambda>c. unat (getMemUsage ?env c)) ?cs) < 2 ^ 32"
    by (simp add: mock_env_def)
  have same: "?st\<lparr>compositions := ?cs\<rparr> = ?st"
    by (simp add: mock_window_def)
  note T = total_memory_usage [of ?env ?cs ?st]
  from T have total: "updateMemUsage_num_bytes ?env ?cs =
      EEPROM_HDR_NUM_BYTES ?env + sum_list (map (getMemUsage ?env) ?cs)"
    by (rule conjunct1)
  from T perm have swapped: "updateMemUsage_num_bytes ?env [(''b'', 200), (''a'', 100)] =
      updateMemUsage_num_bytes ?env ?cs"
    by blast
  from T same have label: "memUsageCurrBytesLabel (updateMemUsage ?env ?st) =
      QString_number (unat (EEPROM_HDR_NUM_BYTES ?env + sum_list (map (getMemUsage ?env) ?cs)))
        @ ''/'' @ QString_number (unat (MAX_EEPROM_BYTES ?env)) @ '' bytes used''"
    by simp
  have vals: "EEPROM_HDR_NUM_BYTES ?env + sum_list (map (getMemUsage ?env) ?cs) = 310"
    "MAX_EEPROM_BYTES ?env = 1000"
    by (simp_all add: mock_env_def)
  have digits: "QString_number 310 = ''310''" "QString_number 1000 = ''1000''"
    by (simp_all add: QString_number.simps)
  from total [unfolded vals] swapped label [unfolded vals] show ?thesis
    by (simp add: digits)
qed

lemma progress_below_capacity:
  fixes num_bytes m :: "32 word"
  assumes "num_bytes < m"
  shows "unat ((100 * num_bytes) div m) \<le> 99"
proof -
  have lt: "unat num_bytes < unat m"
    using assms by (simp add: word_less_nat_alt)
  have "unat (100 * num_bytes) \<le> 100 * unat num_bytes"
    by (simp add: unat_word_ariths)
  also have "\<dots> < 100 * unat m"
    using lt by simp
  finally have "unat (100 * num_bytes) div unat m < 100"
    by (simp add: less_mult_imp_div_less)
  then show ?thesis
    by (simp add: unat_div)
qed

lemma sint_small:
  fixes w :: "32 word"
  assumes "unat w \<le> 99"
  shows "sint w = int (unat w)"
proof -
  have "int (unat w) \<le> 99"
    using assms by linarith
  then have u: "uint w \<le> 99" "0 \<le> uint w"
    by simp_all
  have "sint w = signed_take_bit (LENGTH(32) - Suc 0) (uint w)"
    by (rule sint_uint)
  also have "\<dots> = uint w"
  proof (rule signed_take_bit_int_eq_self)
    have "- (2 ^ (LENGTH(32) - Suc 0)) \<le> (0 :: int)" by simp
    with u(2) show "- (2 ^ (LENGTH(32) - Suc 0)) \<le> uint w" by linarith
    have "(99 :: int) < 2 ^ (LENGTH(32) - Suc 0)" by simp
    with u(1) show "uint w < 2 ^ (LENGTH(32) - Suc 0)" by linarith
  qed
  finally show ?thesis by simp
qed

lemma updateMemUsage_value_full:
  "MAX_EEPROM_BYTES env \<le> num_bytes \<Longrightarrow> updateMemUsage_value env num_bytes = 100"
  by (simp add: updateMemUsage_value_def PROG_BAR_MAX_def)

lemma updateMemUsage_value_below:
  assumes "num_bytes < MAX_EEPROM_BYTES env"
  shows "updateMemUsage_value env num_bytes =
           int (unat ((100 * num_bytes) div MAX_EEPROM_BYTES env))"
proof -
  from assms have "\<not> MAX_EEPROM_BYTES env \<le> num_bytes"
    by simp
  then have "updateMemUsage_value env num_bytes =
      sint ((100 * num_bytes) div MAX_EEPROM_BYTES env)"
    by (simp add: updateMemUsage_value_def PROG_BAR_MAX_def)
  also have "\<dots> = int (unat ((100 * num_bytes) div MAX_EEPROM_BYTES env))"
    by (rule sint_small [OF progress_below_capacity [OF assms]])
  finally show ?thesis .
qed

lemma updateMemUsage_value_exact:
  assumes "num_bytes < MAX_EEPROM_BYTES env"
    and "100 * unat (MAX_EEPROM_BYTES env) \<le> 2 ^ 32"
  shows "updateMemUsage_value env num_bytes =
           int ((100 * unat num_bytes) div unat (MAX_EEPROM_BYTES env))"
proof -
  have "unat num_bytes < unat (MAX_EEPROM_BYTES env)"
    using assms(1) by (simp add: word_less_nat_alt)
  with assms(2) have "unat (100 :: 32 word) * unat num_bytes < 2 ^ LENGTH(32)"
    by simp
  then have "unat (100 * num_bytes) = 100 * unat num_bytes"
    using unat_mult_lem [of "100 :: 32 word" num_bytes] by simp
  then show ?thesis
    by (simp add: updateMemUsage_value_below [OF assms(1)] unat_div)
qed


lemma memUsageProgressBar_updateMemUsage:
  "memUsageProgressBar (updateMemUsage env st) =
     updateMemUsage_value env
       (EEPROM_HDR_NUM_BYTES env + sum_list (map (getMemUsage env) (compositions st)))"
  by (simp add: updateMemUsage_def updateMemUsage_num_bytes_sum Let_def)

text \<open>
  C10. The value that updateMemUsage sets on the progress bar lies in [0, 100]. With
  \<open>num_bytes\<close> the \<open>uint32_t\<close> total of the header and all members' \<open>getMemUsage()\<close>,
  the value is 100 whenever \<open>num_bytes \<ge> MAX_EEPROM_BYTES\<close>; otherwise it is the
  unsigned 32-bit quotient of \<open>100 * num_bytes\<close> by \<open>MAX_EEPROM_BYTES\<close>, which is at
  most 99, and it is the exact \<open>floor (100 * num_bytes / MAX_EEPROM_BYTES)\<close> for every
  capacity whose hundredfold fits in 32 bits.
\<close>

theorem progress_value_range:
  "(let num_bytes = EEPROM_HDR_NUM_BYTES env + sum_list (map (getMemUsage env) (compositions st));
        v = memUsageProgressBar (updateMemUsage env st)
    in updateMemUsage_num_bytes env (compositions st) = num_bytes
       \<and> 0 \<le> v \<and> v \<le> 100
       \<and> (MAX_EEPROM_BYTES env \<le> num_bytes \<longrightarrow> v = 100)
       \<and> (num_bytes < MAX_EEPROM_BYTES env \<longrightarrow>
            v = int (unat ((100 * num_bytes) div MAX_EEPROM_BYTES env)) \<and> v \<le> 99)
       \<and> (num_bytes < MAX_EEPROM_BYTES env \<and> 100 * unat (MAX_EEPROM_BYTES env) \<le> 2 ^ 32 \<longrightarrow>
            v = int ((100 * unat num_bytes) div unat (MAX_EEPROM_BYTES env))))"
proof -
  define num_bytes where
    "num_bytes = EEPROM_HDR_NUM_BYTES env + sum_list (map (getMemUsage env) (compositions st))"
  define v where "v = memUsageProgressBar (updateMemUsage env st)"
  have v: "v = updateMemUsage_value env num_bytes"
    by (simp add: v_def num_bytes_def memUsageProgressBar_updateMemUsage)
  have total: "updateMemUsage_num_bytes env (compositions st) = num_bytes"
    by (simp add: num_bytes_def updateMemUsage_num_bytes_sum)
  have full: "v = 100" if "MAX_EEPROM_BYTES env \<le> num_bytes"
    using that by (simp add: v updateMemUsage_value_full)
  have below: "v = int (unat ((100 * num_bytes) div MAX_EEPROM_BYTES env))"
    if "num_bytes < MAX_EEPROM_BYTES env"
    using that by (simp only: v updateMemUsage_value_below)
  have below99: "v \<le> 99" if "num_bytes < MAX_EEPROM_BYTES env"
  proof -
    have "int (unat ((100 * num_bytes) div MAX_EEPROM_BYTES env)) \<le> 99"
      using progress_below_capacity [OF that] by linarith
    then show ?thesis
      by (simp only: below [OF that])
  qed
  have exact: "v = int ((100 * unat num_bytes) div unat (MAX_EEPROM_BYTES env))"
    if "num_bytes < MAX_EEPROM_BYTES env" "100 * unat (MAX_EEPROM_BYTES env) \<le> 2 ^ 32"
    using that by (simp add: v updateMemUsage_value_exact)
  have range: "0 \<le> v \<and> v \<le> 100"
  proof (cases "num_bytes < MAX_EEPROM_BYTES env")
    case True
    have "0 \<le> int (unat ((100 * num_bytes) div MAX_EEPROM_BYTES env))"
      by (rule of_nat_0_le_iff)
    then have "0 \<le> v"
      by (simp only: below [OF True])
    with below99 [OF True] show ?thesis by simp
  next
    case False
    then have "MAX_EEPROM_BYTES env \<le> num_bytes" by simp
    from full [OF this] show ?thesis by simp
  qed
  from total range full below below99 exact
  have "updateMemUsage_num_bytes env (compositions st) = num_bytes
       \<and> 0 \<le> v \<and> v \<le> 100
       \<and> (MAX_EEPROM_BYTES env \<le> num_bytes \<longrightarrow> v = 100)
       \<and> (num_bytes < MAX_EEPROM_BYTES env \<longrightarrow>
            v = int (unat ((100 * num_bytes) div MAX_EEPROM_BYTES env)) \<and> v \<le> 99)
       \<and> (num_bytes < MAX_EEPROM_BYTES env \<and> 100 * unat (MAX_EEPROM_BYTES env) \<le> 2 ^ 32 \<longrightarrow>
            v = int ((100 * unat num_bytes) div unat (MAX_EEPROM_BYTES env)))"
    by blast
  then show ?thesis
    unfolding Let_def num_bytes_def v_def .
qed

theorem progress_value_range_witness:
  "memUsageProgressBar (updateMemUsage (mock_env device_ok)
       (mock_window [(''a'', 100), (''b'', 200)] 0 [])) = 31
   \<and> memUsageProgressBar (updateMemUsage (mock_env device_ok)
       (mock_window [(''a'', 995)] 0 [])) = 100"
proof -
  let ?env = "mock_env device_ok"
  let ?st = "mock_window [(''a'', 100), (''b'', 200)] 0 [] :: (string \<times> 32 word, unit) MainWindow"
  let ?full = "mock_window [(''a'', 995)] 0 [] :: (string \<times> 32 word, unit) MainWindow"
  have cap: "MAX_EEPROM_BYTES ?env = 1000"
    by (simp add: mock_env_def)
  have n1: "EEPROM_HDR_NUM_BYTES ?env + sum_list (map (getMemUsage ?env) (compositions ?st)) = 310"
    by (simp add: mock_env_def mock_window_def)
  have n2: "EEPROM_HDR_NUM_BYTES ?env + sum_list (map (getMemUsage ?env) (compositions ?full)) = 1005"
    by (simp add: mock_env_def mock_window_def)
  have lt: "(310 :: 32 word) < 1000" "100 * unat (1000 :: 32 word) \<le> 2 ^ 32"
    by simp_all
  have ge: "(1000 :: 32 word) \<le> 1005"
    by simp
  from progress_value_range [of ?env ?st] lt
  have a: "memUsageProgressBar (updateMemUsage ?env ?st) = int ((100 * unat (310 :: 32 word)) div unat (1000 :: 32 word))"
    unfolding Let_def n1 cap by blast
  from progress_value_range [of ?env ?full] ge
  have b: "memUsageProgressBar (updateMemUsage ?env ?full) = 100"
    unfolding Let_def n2 cap by blast
  from a b show ?thesis by simp
qed

subsection \<open>The label of an added composition\<close>

lemma QString_split_not_Nil [simp]: "QString_split sep s \<noteq> []"
  by (induction s) simp_all

lemma QString_split_without_sep: "sep \<notin> set s \<Longrightarrow> QString_split sep s = [s]"
  by (induction s) auto

lemma last_QString_split_after_sep:
  "sep \<notin> set b \<Longrightarrow> last (QString_split sep (a @ sep # b)) = b"
proof (induction a)
  case Nil
  then show ?case by (simp add: QString_split_without_sep)
next
  case (Cons c a)
  let ?r = "QString_split sep (a @ sep # b)"
  have two: "tl ?r \<noteq> []"
    by (induction a) simp_all
  show ?case
  proof (cases "c = sep")
    case True
    with Cons show ?thesis by simp
  next
    case False
    have "last ((c # hd ?r) # tl ?r) = last (tl ?r)"
      using two by simp
    also have "\<dots> = last ?r"
      using two by (cases ?r) simp_all
    finally show ?thesis
      using False Cons by simp
  qed
qed

lemma identifier_string_of_path:
  assumes "CHR ''/'' \<notin> set base" and "CHR 0x5C \<notin> set base"
    and "dir = [] \<or> last dir = CHR ''/'' \<or> last dir = CHR 0x5C"
  shows "identifier_string (dir @ base @ ''.musicxml'') = base"
proof -
  let ?name = "base @ ''.musicxml''"
  have slash: "CHR ''/'' \<notin> set ?name" and backslash: "CHR 0x5C \<notin> set ?name"
    using assms(1,2) by simp_all
  have plain: "last (QString_split (CHR 0x5C) ?name) = ?name"
    by (simp add: QString_split_without_sep [OF backslash])
  have after: "last (QString_split (CHR 0x5C) (p @ CHR 0x5C # ?name)) = ?name" for p
    by (rule last_QString_split_after_sep [OF backslash])
  have "last (QString_split (CHR 0x5C) (last (QString_split (CHR ''/'') (dir @ ?name)))) = ?name"
  proof (cases "dir = []")
    case True
    have "last (QString_split (CHR ''/'') ?name) = ?name"
      by (simp add: QString_split_without_sep [OF slash])
    with True plain show ?thesis
      by simp
  next
    case False
    then obtain d where dir: "dir = d @ [last dir]"
      by (metis append_butlast_last_id)
    from False assms(3) consider "last dir = CHR ''/''" | "last dir = CHR 0x5C"
      by blast
    then show ?thesis
    proof cases
      case 1
      with dir have whole: "dir @ ?name = d @ CHR ''/'' # ?name"
        by (metis append_Cons append_Nil append_assoc)
      have "last (QString_split (CHR ''/'') (dir @ ?name)) = ?name"
        unfolding whole by (rule last_QString_split_after_sep [OF slash])
      then show ?thesis
        by (simp only: plain)
    next
      case 2
      with dir have whole: "dir @ ?name = d @ CHR 0x5C # ?name"
        by (metis append_Cons append_Nil append_assoc)
      show ?thesis
      proof (cases "CHR ''/'' \<in> set d")
        case False
        with slash have none: "CHR ''/'' \<notin> set (d @ CHR 0x5C # ?name)"
          by simp
        have "last (QString_split (CHR ''/'') (dir @ ?name)) = d @ CHR 0x5C # ?name"
          unfolding whole by (simp add: QString_split_without_sep [OF none])
        then show ?thesis
          by (simp only: after)
      next
        case True
        then obtain d1 d2 where d: "d = d1 @ CHR ''/'' # d2" and d2: "CHR ''/'' \<notin> set d2"
          by (meson split_list_last)
        from d2 slash have rest: "CHR ''/'' \<notin> set (d2 @ CHR 0x5C # ?name)"
          by simp
        have parts: "dir @ ?name = d1 @ CHR ''/'' # (d2 @ CHR 0x5C # ?name)"
          by (simp add: whole d)
        have "last (QString_split (CHR ''/'') (dir @ ?name)) = d2 @ CHR 0x5C # ?name"
          unfolding parts by (rule last_QString_split_after_sep [OF rest])
        then show ?thesis
          by (simp only: after)
      qed
    qed
  qed
  then show ?thesis
    by (simp add: identifier_string_def QString_resize_def Let_def)
qed


text \<open>
  C8. For every added file whose name ends in \<open>.musicxml\<close>: write the name as the
  leading path components (empty, or ending in \<open>/\<close> or in a backslash), the last
  component free of both separators, and the extension. The label appended to the
  list for the new composition is that last component without the extension.
\<close>

theorem label_of_added_file:
  assumes "musicXmlPathLineEdit st = dir @ base @ ''.musicxml''"
    and "CHR ''/'' \<notin> set base" and "CHR 0x5C \<notin> set base"
    and "dir = [] \<or> last dir = CHR ''/'' \<or> last dir = CHR 0x5C"
    and "length (compositions st) \<le> MAX_NUM_COMPS env"
    and "parse env (Composition env (musicXmlPathLineEdit st)) (world st) = (NO_ERROR, c)"
    and "length (jingleListWidget st) = length (compositions st)"
  shows "\<exists>st'. on_convertPushButton_clicked env st = Inr st'
           \<and> jingleListWidget st' = jingleListWidget st @ [base]
           \<and> currentRow st' = int (length (jingleListWidget st))
           \<and> compositions st' = compositions st @ [c]"
proof -
  have label: "identifier_string (musicXmlPathLineEdit st) = base"
    unfolding assms(1) by (rule identifier_string_of_path [OF assms(2-4)])
  let ?st3 = "st\<lparr>compositions := compositions st @ [c],
                  jingleListWidget := jingleListWidget st @ [base],
                  currentRow := int (length (jingleListWidget st))\<rparr>"
  have shown: "updateCompositionDisplay ?st3 = Inr ?st3"
    using assms(7) by (simp add: updateCompositionDisplay_def getSelectedComposition_valid)
  have "on_convertPushButton_clicked env st = Inr (updateMemUsage env ?st3)"
    using assms(5,6) shown
    by (simp add: on_convertPushButton_clicked_def Let_def label)
  then show ?thesis
    by (simp add: updateMemUsage_def Let_def)
qed

theorem label_of_added_file_witness:
  "jingleListWidget (projr (on_convertPushButton_clicked (mock_env device_ok)
       (mock_window [(''first'', 100)] 0 (''/home/u/scores'' @ [CHR 0x5C] @ ''tune.musicxml'')))) =
     [''first'', ''tune'']"
proof -
  let ?path = "''/home/u/scores'' @ [CHR 0x5C] @ ''tune.musicxml''"
  let ?env = "mock_env device_ok"
  let ?st = "mock_window [(''first'', 100)] 0 ?path :: (string \<times> 32 word, unit) MainWindow"
  have path: "musicXmlPathLineEdit ?st = (''/home/u/scores'' @ [CHR 0x5C]) @ ''tune'' @ ''.musicxml''"
    by (simp add: mock_window_def)
  have base: "CHR ''/'' \<notin> set ''tune''" "CHR 0x5C \<notin> set ''tune''"
    by simp_all
  have dir: "''/home/u/scores'' @ [CHR 0x5C] = [] \<or>
      last (''/home/u/scores'' @ [CHR 0x5C]) = CHR ''/'' \<or>
      last (''/home/u/scores'' @ [CHR 0x5C]) = CHR 0x5C"
    by simp
  have room: "length (compositions ?st) \<le> MAX_NUM_COMPS ?env"
    by (simp add: mock_window_def mock_env_def)
  have parsed: "parse ?env (Composition ?env (musicXmlPathLineEdit ?st)) (world ?st) =
      (NO_ERROR, (?path, 100))"
    by (simp add: mock_window_def mock_env_def suffix_def)
  have sync: "length (jingleListWidget ?st) = length (compositions ?st)"
    by (simp add: mock_window_def)
  from label_of_added_file [OF path base dir room parsed sync]
  obtain st' where "on_convertPushButton_clicked ?env ?st = Inr st'"
    and "jingleListWidget st' = jingleListWidget ?st @ [''tune'']"
    by blast
  then show ?thesis
    by (simp add: mock_window_def)
qed

subsection \<open>The rows that getSelectedComposition is called with\<close>

lemma rows_agree_getSelectedComposition:
  assumes "rows_agree st"
  shows "getSelectedComposition st =
      (if currentRow st = - 1 then (None, information Invalid_Composition_selected st)
       else (Some (nat (currentRow st)), st))"
  using assms by (auto simp add: rows_agree_def getSelectedComposition_def)

lemma rows_agree_selected:
  "rows_agree st \<Longrightarrow> currentRow st \<noteq> - 1 \<Longrightarrow>
   0 \<le> currentRow st \<and> nat (currentRow st) < length (compositions st)"
  by (auto simp add: rows_agree_def)

lemma rows_agree_information [simp]: "rows_agree (information m st) = rows_agree st"
  by (simp add: rows_agree_def information_def)

lemma rows_agree_called [simp]: "rows_agree (called c w st) = rows_agree st"
  by (simp add: rows_agree_def called_def)

lemma rows_agree_updateMemUsage [simp]: "rows_agree (updateMemUsage env st) = rows_agree st"
  by (simp add: rows_agree_def updateMemUsage_def Let_def)

lemma rows_agree_updateCompositionDisplay:
  assumes "rows_agree st"
  shows "\<exists>st'. updateCompositionDisplay st = Inr st' \<and> rows_agree st'"
proof (cases "currentRow st = - 1")
  case True
  with assms show ?thesis
    by (simp add: updateCompositionDisplay_def rows_agree_getSelectedComposition)
next
  case False
  with assms rows_agree_selected [OF assms False] show ?thesis
    by (simp add: updateCompositionDisplay_def rows_agree_getSelectedComposition)
qed

lemma rows_agree_play:
  assumes "rows_agree st" and "on_playJinglePushButton_clicked env st = Inr st'"
  shows "rows_agree st'"
  using assms(2) assms(1)
  unfolding on_playJinglePushButton_clicked_def getSelectedComposition_def Let_def
  by (auto split: if_splits prod.splits simp add: rows_agree_def information_def called_def)

lemma rows_agree_convert:
  assumes "rows_agree st" and "on_convertPushButton_clicked env st = Inr st'"
  shows "rows_agree st'"
proof (cases "MAX_NUM_COMPS env < length (compositions st)")
  case True
  with assms show ?thesis
    by (auto simp add: on_convertPushButton_clicked_def)
next
  case False
  obtain e c where parsed:
    "parse env (Composition env (musicXmlPathLineEdit st)) (world st) = (e, c)"
    by (cases "parse env (Composition env (musicXmlPathLineEdit st)) (world st)")
  show ?thesis
  proof (cases "e = NO_ERROR")
    case bad: False
    with False parsed assms(2) have "st' = information
        (Failed_to_parse_file (musicXmlPathLineEdit st) e) st"
      by (auto simp add: on_convertPushButton_clicked_def Let_def information_def)
    with assms(1) show ?thesis by simp
  next
    case True
    let ?st3 = "st\<lparr>compositions := compositions st @ [c],
        jingleListWidget := jingleListWidget st @ [identifier_string (musicXmlPathLineEdit st)],
        currentRow := int (length (jingleListWidget st))\<rparr>"
    have "rows_agree ?st3"
      using assms(1) by (simp add: rows_agree_def)
    from rows_agree_updateCompositionDisplay [OF this]
    obtain st4 where shown: "updateCompositionDisplay ?st3 = Inr st4" and "rows_agree st4"
      by blast
    moreover from False True parsed assms(2) shown
    have "st' = updateMemUsage env st4"
      by (simp add: on_convertPushButton_clicked_def Let_def)
    ultimately show ?thesis by simp
  qed
qed

lemma rows_agree_delete:
  assumes "rows_agree st" and "on_delJingleToolButton_clicked env st = Inr st'"
  shows "rows_agree st'"
proof (cases "currentRow st = - 1")
  case True
  with assms show ?thesis
    by (auto simp add: on_delJingleToolButton_clicked_def rows_agree_getSelectedComposition)
next
  case False
  from rows_agree_selected [OF assms(1) False] assms(1)
  have "rows_agree (st\<lparr>compositions := take (nat (currentRow st)) (compositions st)
            @ drop (Suc (nat (currentRow st))) (compositions st),
          jingleListWidget := snd (takeItem (currentRow st) (jingleListWidget st)),
          currentRow := - 1\<rparr>)"
    by (auto simp add: rows_agree_def takeItem_def)
  with False assms rows_agree_selected [OF assms(1) False] show ?thesis
    by (auto simp add: on_delJingleToolButton_clicked_def rows_agree_getSelectedComposition
        Let_def)
qed

lemma rows_agree_moveItem:
  assumes "rows_agree st" and "0 \<le> from" and "from < int (length (jingleListWidget st))"
    and "0 \<le> to" and "to < int (length (jingleListWidget st))"
  shows "rows_agree (moveItem from to st)"
  using assms
  by (auto simp add: rows_agree_def moveItem_def takeItem_def insertItem_def insertRow_def)

lemma rows_agree_compositions_update:
  "rows_agree st \<Longrightarrow> length cs = length (compositions st) \<Longrightarrow>
   rows_agree (st\<lparr>compositions := cs\<rparr>)"
  by (simp add: rows_agree_def)

lemma rows_agree_down:
  assumes "rows_agree st" and "on_mvJingleDownToolButton_clicked st = Inr st'"
  shows "rows_agree st'"
proof (cases "currentRow st = - 1 \<or> int (length (compositions st)) \<le> currentRow st + 1")
  case True
  with assms rows_agree_getSelectedComposition(1) [OF assms(1)] show ?thesis
    by (auto simp add: on_mvJingleDownToolButton_clicked_def split: if_splits)
next
  case False
  with assms(1) have rows: "0 \<le> currentRow st" "currentRow st < int (length (jingleListWidget st))"
    "0 \<le> currentRow st + 1" "currentRow st + 1 < int (length (jingleListWidget st))"
    by (auto simp add: rows_agree_def)
  have moved: "rows_agree (moveItem (currentRow st) (currentRow st + 1) st)"
    by (rule rows_agree_moveItem [OF assms(1) rows])
  from False assms(2) rows_agree_getSelectedComposition(1) [OF assms(1)]
  have "st' = (moveItem (currentRow st) (currentRow st + 1) st)
      \<lparr>compositions := (compositions st)[nat (currentRow st) := compositions st ! (nat (currentRow st) + 1),
          nat (currentRow st) + 1 := compositions st ! nat (currentRow st)]\<rparr>"
    by (auto simp add: on_mvJingleDownToolButton_clicked_def Let_def moveItem_def
        split: if_splits prod.splits)
  with moved show ?thesis
    by (simp add: rows_agree_compositions_update moveItem_def split: prod.splits)
qed


lemma rows_agree_up:
  assumes "rows_agree st" and "on_mvJingleUpToolButton_clicked st = Inr st'"
  shows "rows_agree st'"
proof (cases "currentRow st = - 1 \<or> currentRow st = 0")
  case True
  with assms rows_agree_getSelectedComposition [OF assms(1)] show ?thesis
    by (auto simp add: on_mvJingleUpToolButton_clicked_def split: if_splits)
next
  case False
  with assms(1) have rows: "0 \<le> currentRow st" "currentRow st < int (length (jingleListWidget st))"
    "0 \<le> currentRow st - 1" "currentRow st - 1 < int (length (jingleListWidget st))"
    by (auto simp add: rows_agree_def)
  have moved: "rows_agree (moveItem (currentRow st) (currentRow st - 1) st)"
    by (rule rows_agree_moveItem [OF assms(1) rows])
  from False assms(2) rows_agree_getSelectedComposition [OF assms(1)]
  have "st' = (moveItem (currentRow st) (currentRow st - 1) st)
      \<lparr>compositions := (compositions st)[nat (currentRow st) := compositions st ! (nat (currentRow st) - 1),
          nat (currentRow st) - 1 := compositions st ! nat (currentRow st)]\<rparr>"
    by (auto simp add: on_mvJingleUpToolButton_clicked_def Let_def moveItem_def
        split: if_splits prod.splits)
  with moved show ?thesis
    by (simp add: rows_agree_compositions_update moveItem_def split: prod.splits)
qed

lemma rows_agree_clicked:
  assumes "rows_agree st" and "on_jingleListWidget_clicked st = Inr st'"
  shows "rows_agree st'"
  using assms rows_agree_updateCompositionDisplay [OF assms(1)]
  by (auto simp add: on_jingleListWidget_clicked_def split: if_splits)

lemma reachable_rows_agree:
  "reachable env st \<Longrightarrow> rows_agree st"
proof (induction rule: reachable.induct)
  case (constructed st)
  then show ?case by (simp add: rows_agree_def)
next
  case (row_selected st r)
  then show ?case by (simp add: rows_agree_def)
next
  case (composition_set st i c)
  then show ?case by (simp add: rows_agree_def)
next
  case (other_fields st path port v label ps cs w)
  then show ?case by (simp add: rows_agree_def)
next
  case (played st st')
  then show ?case by (blast intro: rows_agree_play)
next
  case (converted st st')
  then show ?case by (blast intro: rows_agree_convert)
next
  case (deleted st st')
  then show ?case by (blast intro: rows_agree_delete)
next
  case (moved_down st st')
  then show ?case by (blast intro: rows_agree_down)
next
  case (moved_up st st')
  then show ?case by (blast intro: rows_agree_up)
next
  case (clicked st st')
  then show ?case by (blast intro: rows_agree_clicked)
qed

text \<open>No slot ends in a fault on a window that a run can reach.\<close>

lemma reachable_slots_return:
  assumes "reachable env st"
  shows "\<exists>st'. on_playJinglePushButton_clicked env st = Inr st'"
    and "\<exists>st'. on_convertPushButton_clicked env st = Inr st'"
    and "\<exists>st'. on_delJingleToolButton_clicked env st = Inr st'"
    and "\<exists>st'. on_mvJingleDownToolButton_clicked st = Inr st'"
    and "\<exists>st'. on_mvJingleUpToolButton_clicked st = Inr st'"
    and "\<exists>st'. on_jingleListWidget_clicked st = Inr st'"
proof -
  have inv: "rows_agree st"
    using assms by (rule reachable_rows_agree)
  then have row: "currentRow st < int (length (compositions st))"
    by (simp add: rows_agree_def)
  show "\<exists>st'. on_playJinglePushButton_clicked env st = Inr st'"
    by (rule play_returns [OF row])
  have shown: "\<exists>st'. updateCompositionDisplay s = Inr st'" if "rows_agree s" for s :: "('a, 'b) MainWindow"
    using rows_agree_updateCompositionDisplay [OF that] by blast
  have "rows_agree (st\<lparr>compositions := compositions st @ [c],
        jingleListWidget := jingleListWidget st @ [l],
        currentRow := int (length (jingleListWidget st))\<rparr>)" for c l
    using inv by (simp add: rows_agree_def)
  from shown [OF this]
  have "updateCompositionDisplay (st\<lparr>compositions := compositions st @ [c],
        jingleListWidget := jingleListWidget st @ [l],
        currentRow := int (length (jingleListWidget st))\<rparr>) \<noteq> Inl f" for c l f
    by (metis sum.distinct(1))
  then show "\<exists>st'. on_convertPushButton_clicked env st = Inr st'"
    by (auto simp add: on_convertPushButton_clicked_def Let_def split: prod.splits sum.splits)
  show "\<exists>st'. on_delJingleToolButton_clicked env st = Inr st'"
    using inv row
    by (auto simp add: on_delJingleToolButton_clicked_def getSelectedComposition_def Let_def)
  show "\<exists>st'. on_mvJingleDownToolButton_clicked st = Inr st'"
    by (auto simp add: on_mvJingleDownToolButton_clicked_def getSelectedComposition_def Let_def)
  show "\<exists>st'. on_mvJingleUpToolButton_clicked st = Inr st'"
    using inv row
    by (auto simp add: on_mvJingleUpToolButton_clicked_def getSelectedComposition_def Let_def)
  show "\<exists>st'. on_jingleListWidget_clicked st = Inr st'"
    using shown [OF inv] by (simp add: on_jingleListWidget_clicked_def)
qed




end
